theory Spec2Isabelle
  imports Complex_Main "HOL-Library.Multiset"
begin

section \<open>Data model of devis.py\<close>

text \<open>
  The dataclasses of the program are records. Python's \<^verbatim>\<open>float\<close> fields (prices,
  discount values) are taken as exact rationals: rounding is not modelled. Where two
  classes share a field name the record name qualifies it (\<open>Item.quantity\<close>,
  \<open>StockItem.quantity\<close>).
\<close>

record Item =
  description :: string
  unit_price :: rat
  quantity :: int

record StockItem =
  name :: string
  color :: string
  lot_number :: string
  entry_date :: string
  quantity :: int

text \<open>
  The entries of \<^verbatim>\<open>Quote.serials\<close> are dictionaries
  \<^verbatim>\<open>{serial, product, materials: [{name, lot, qty}]}\<close>.
\<close>

record material =
  name :: string
  lot :: string
  qty :: int

record serial_entry =
  serial :: string
  product :: string
  materials :: "material list"


text \<open>
  Exceptions are values: a computation that can raise returns \<open>error + 'a\<close>, with
  \<open>Inl\<close> the exception raised. \<open>then_do\<close> sequences two steps and \<open>for_each\<close>
  is a loop that collects results; the first exception ends either.
\<close>

datatype error =
  FileNotFoundError | KeyError string | ValueError | TypeError | JSONDecodeError
  | IndexError | OverflowError | DuplicateWidgetID

definition then_do :: "error + 'a \<Rightarrow> ('a \<Rightarrow> error + 'b) \<Rightarrow> error + 'b" where
  "then_do r f = (case r of Inl e \<Rightarrow> Inl e | Inr x \<Rightarrow> f x)"

fun for_each :: "('a \<Rightarrow> error + 'b) \<Rightarrow> 'a list \<Rightarrow> error + 'b list" where
  "for_each f [] = Inr []"
| "for_each f (x # xs) =
     then_do (f x) (\<lambda>y. then_do (for_each f xs) (\<lambda>ys. Inr (y # ys)))"


section \<open>Stock reconciliation (tab5, save-invoice handler)\<close>

text \<open>
  \<^verbatim>\<open>stock_item = next((m for m in STOCK_DB if m.lot_number == ...), None)\<close> yields a
  reference to the first matching object of the list, and the assignment to
  \<^verbatim>\<open>stock_item.quantity\<close> changes that element of \<^verbatim>\<open>STOCK_DB\<close> in place.
  \<open>update_first\<close> is that in-place change of the first match; the search itself is
  \<open>find\<close>. A dataclass instance is always truthy, so \<^verbatim>\<open>if stock_item:\<close> tests for
  \<^verbatim>\<open>None\<close> only; so does \<^verbatim>\<open>if old_entry:\<close>, the dictionary having keys.
\<close>

fun update_first :: "('a \<Rightarrow> bool) \<Rightarrow> ('a \<Rightarrow> 'a) \<Rightarrow> 'a list \<Rightarrow> 'a list" where
  "update_first P f [] = []"
| "update_first P f (x # xs) = (if P x then f x # xs else x # update_first P f xs)"

text \<open>Lines 717-719: the quantity the old entry recorded for a lot, 0 by default.\<close>

definition old_qty_of :: "serial_entry option \<Rightarrow> string \<Rightarrow> int" where
  "old_qty_of old_entry l =
     (case old_entry of
        None \<Rightarrow> 0
      | Some oe \<Rightarrow>
          (case find (\<lambda>m2. lot m2 = l) (materials oe) of
             None \<Rightarrow> 0
           | Some m2 \<Rightarrow> qty m2))"

text \<open>Lines 714-721: the body of the inner loop of the consumption pass.\<close>

definition consume_mat :: "serial_entry option \<Rightarrow> StockItem list \<Rightarrow> material \<Rightarrow> StockItem list" where
  "consume_mat old_entry stock mat =
     (case find (\<lambda>m. lot_number m = lot mat) stock of
        None \<Rightarrow> stock
      | Some stock_item \<Rightarrow>
          (let old_qty = old_qty_of old_entry (lot mat);
               diff = qty mat - old_qty
           in update_first (\<lambda>m. lot_number m = lot mat)
                (\<lambda>m. m\<lparr>StockItem.quantity := StockItem.quantity m - diff\<rparr>) stock))"

text \<open>Lines 712-721: one new serial, then the whole consumption pass.\<close>

definition consume_serial :: "serial_entry list \<Rightarrow> StockItem list \<Rightarrow> serial_entry \<Rightarrow> StockItem list" where
  "consume_serial old_serials stock ns =
     (let old_entry = find (\<lambda>s. serial s = serial ns) old_serials
      in foldl (consume_mat old_entry) stock (materials ns))"

definition consumption_pass :: "serial_entry list \<Rightarrow> serial_entry list \<Rightarrow> StockItem list \<Rightarrow> StockItem list" where
  "consumption_pass old_serials new_serials stock =
     foldl (consume_serial old_serials) stock new_serials"

text \<open>Lines 730-732 and 736-738: crediting one old pair back to its lot.\<close>

definition credit_mat :: "StockItem list \<Rightarrow> material \<Rightarrow> StockItem list" where
  "credit_mat stock om =
     (case find (\<lambda>m. lot_number m = lot om) stock of
        None \<Rightarrow> stock
      | Some stock_item \<Rightarrow>
          update_first (\<lambda>m. lot_number m = lot om)
            (\<lambda>m. m\<lparr>StockItem.quantity := StockItem.quantity m + qty om\<rparr>) stock)"

text \<open>Lines 724-738: one old serial, then the whole recredit pass.\<close>

definition recredit_serial :: "serial_entry list \<Rightarrow> StockItem list \<Rightarrow> serial_entry \<Rightarrow> StockItem list" where
  "recredit_serial new_serials stock old =
     (case find (\<lambda>ns. serial ns = serial old) new_serials of
        Some still_present \<Rightarrow>
          foldl (\<lambda>st om.
                   let still_used = list_ex (\<lambda>m. lot m = lot om) (materials still_present)
                   in if \<not> still_used then credit_mat st om else st)
            stock (materials old)
      | None \<Rightarrow> foldl credit_mat stock (materials old))"

definition recredit_pass :: "serial_entry list \<Rightarrow> serial_entry list \<Rightarrow> StockItem list \<Rightarrow> StockItem list" where
  "recredit_pass old_serials new_serials stock =
     foldl (recredit_serial new_serials) stock old_serials"

text \<open>Lines 712-738: the two passes in sequence, on the shared stock list.\<close>

definition reconcile :: "serial_entry list \<Rightarrow> serial_entry list \<Rightarrow> StockItem list \<Rightarrow> StockItem list" where
  "reconcile old_serials new_serials stock =
     recredit_pass old_serials new_serials (consumption_pass old_serials new_serials stock)"

text \<open>
  The ledger view of the stock list: what a lookup by lot number reads, namely the
  quantity of the first item carrying that lot number.
\<close>

definition ledger_qty :: "StockItem list \<Rightarrow> string \<Rightarrow> int option" where
  "ledger_qty stock l = map_option StockItem.quantity (find (\<lambda>m. lot_number m = l) stock)"

text \<open>The quantity one binding holds of a lot, and the sum over a binding list.\<close>

definition binding_qty :: "serial_entry \<Rightarrow> string \<Rightarrow> int" where
  "binding_qty b l = sum_list (map qty (filter (\<lambda>m. lot m = l) (materials b)))"

definition lot_total :: "serial_entry list \<Rightarrow> string \<Rightarrow> int" where
  "lot_total bindings l = sum_list (map (\<lambda>b. binding_qty b l) bindings)"

text \<open>A binding without the pairs whose lot number no item of the stock carries.\<close>

definition known_pairs :: "StockItem list \<Rightarrow> serial_entry \<Rightarrow> serial_entry" where
  "known_pairs stock b =
     b\<lparr>materials := filter (\<lambda>m. lot m \<in> lot_number ` set stock) (materials b)\<rparr>"

text \<open>
  Each step of either pass adds an amount to the quantity of the first item of one lot.
  The proofs read the two passes as the list of these (lot, amount) steps, applied in order.
\<close>

definition adjust :: "StockItem list \<Rightarrow> string \<times> int \<Rightarrow> StockItem list" where
  "adjust stock ld =
     update_first (\<lambda>m. lot_number m = fst ld)
       (\<lambda>m. m\<lparr>StockItem.quantity := StockItem.quantity m + snd ld\<rparr>) stock"

definition consume_deltas :: "serial_entry list \<Rightarrow> serial_entry list \<Rightarrow> (string \<times> int) list" where
  "consume_deltas old_serials new_serials =
     concat (map (\<lambda>ns. map (\<lambda>mat. (lot mat,
         old_qty_of (find (\<lambda>s. serial s = serial ns) old_serials) (lot mat) - qty mat))
       (materials ns)) new_serials)"

definition dropped_mats :: "serial_entry list \<Rightarrow> serial_entry \<Rightarrow> material list" where
  "dropped_mats new_serials old =
     (case find (\<lambda>ns. serial ns = serial old) new_serials of
        Some still_present \<Rightarrow>
          filter (\<lambda>om. \<not> list_ex (\<lambda>m. lot m = lot om) (materials still_present)) (materials old)
      | None \<Rightarrow> materials old)"

definition recredit_deltas :: "serial_entry list \<Rightarrow> serial_entry list \<Rightarrow> (string \<times> int) list" where
  "recredit_deltas old_serials new_serials =
     concat (map (\<lambda>old. map (\<lambda>om. (lot om, qty om)) (dropped_mats new_serials old)) old_serials)"

definition delta_sum :: "(string \<times> int) list \<Rightarrow> string \<Rightarrow> int" where
  "delta_sum ds l = sum_list (map snd (filter (\<lambda>ld. fst ld = l) ds))"

definition bump_head :: "int \<Rightarrow> StockItem list \<Rightarrow> StockItem list" where
  "bump_head d ms =
     (case ms of [] \<Rightarrow> [] | m # rest \<Rightarrow> m\<lparr>StockItem.quantity := StockItem.quantity m + d\<rparr> # rest)"


section \<open>Pricing (build_pdf and tab1)\<close>


text \<open>
  Lines 335-345: with serials, each serial contributes the unit price of the first item
  whose description is its product (0.0 when there is none).
\<close>

definition serial_line_total :: "Item list \<Rightarrow> serial_entry \<Rightarrow> rat" where
  "serial_line_total items s =
     (case find (\<lambda>it. description it = product s) items of
        Some it \<Rightarrow> unit_price it
      | None \<Rightarrow> 0)"










section \<open>Serial numbers (generate_serial and the enumeration of tab5)\<close>












section \<open>Persisted records (the CSV loaders)\<close>

text \<open>
  The loaders read a CSV file with \<^verbatim>\<open>csv.DictReader\<close> inside
  \<^verbatim>\<open>try: ... except FileNotFoundError: return []\<close>. The file system is a partial map
  from paths to the rows \<^verbatim>\<open>DictReader\<close> yields, each row a dictionary from column
  names to cell texts (rows as long as the header; the splitting of the text into cells is
  the library's). A loader returns \<open>Inl\<close> of the first exception that escapes it.
\<close>

text \<open>A decoded JSON value, as \<^verbatim>\<open>json.loads\<close> returns it.\<close>

datatype json =
  JNull | JBool bool | JInt int | JFloat rat | JString string
  | JArray "json list" | JObject "(string \<times> json) list"

type_synonym row = "string \<rightharpoonup> string"

type_synonym files = "string \<rightharpoonup> row list"

type_synonym date = "nat \<times> nat \<times> nat"

text \<open>
  The library functions the loaders call are parameters: \<^verbatim>\<open>float\<close>, \<^verbatim>\<open>int\<close>,
  \<^verbatim>\<open>json.loads\<close> and \<^verbatim>\<open>strptime(_, "%Y-%m-%d").date()\<close>, each with
  \<open>None\<close> where the function raises on the text.
\<close>

record pylib =
  float_of :: "string \<Rightarrow> rat option"
  int_of :: "string \<Rightarrow> int option"
  json_loads :: "string \<Rightarrow> json option"
  strptime_ymd :: "string \<Rightarrow> date option"

text \<open>\<^verbatim>\<open>open(path)\<close> and the handler of the surrounding \<^verbatim>\<open>try\<close>.\<close>

definition open_file :: "files \<Rightarrow> string \<Rightarrow> error + row list" where
  "open_file fs path = (case fs path of None \<Rightarrow> Inl FileNotFoundError | Some rows \<Rightarrow> Inr rows)"

definition except_FileNotFoundError :: "error + 'a \<Rightarrow> 'a \<Rightarrow> error + 'a" where
  "except_FileNotFoundError r fallback =
     (case r of Inl FileNotFoundError \<Rightarrow> Inr fallback | _ \<Rightarrow> r)"

text \<open>\<^verbatim>\<open>row[k]\<close> and \<^verbatim>\<open>row.get(k, d)\<close>, then the library calls with their exceptions.\<close>

definition getitem :: "row \<Rightarrow> string \<Rightarrow> error + string" where
  "getitem r k = (case r k of None \<Rightarrow> Inl (KeyError k) | Some v \<Rightarrow> Inr v)"

definition get_or :: "row \<Rightarrow> string \<Rightarrow> string \<Rightarrow> string" where
  "get_or r k d = (case r k of None \<Rightarrow> d | Some v \<Rightarrow> v)"

definition py_float :: "pylib \<Rightarrow> string \<Rightarrow> error + rat" where
  "py_float L s = (case float_of L s of None \<Rightarrow> Inl ValueError | Some x \<Rightarrow> Inr x)"

definition py_int :: "pylib \<Rightarrow> string \<Rightarrow> error + int" where
  "py_int L s = (case int_of L s of None \<Rightarrow> Inl ValueError | Some x \<Rightarrow> Inr x)"

definition py_json_loads :: "pylib \<Rightarrow> string \<Rightarrow> error + json" where
  "py_json_loads L s = (case json_loads L s of None \<Rightarrow> Inl JSONDecodeError | Some j \<Rightarrow> Inr j)"

definition py_strptime :: "pylib \<Rightarrow> string \<Rightarrow> error + date" where
  "py_strptime L s = (case strptime_ymd L s of None \<Rightarrow> Inl ValueError | Some d \<Rightarrow> Inr d)"

text \<open>
  The loaded records. \<^verbatim>\<open>Item(**it)\<close> checks the keys of the decoded object and not
  the types of its values, so the items of a loaded quote are the three decoded values
  (description, unit price, quantity); \<^verbatim>\<open>materials\<close> and \<^verbatim>\<open>serials\<close> are whatever
  JSON value was decoded. The fields of \<open>Client\<close> and \<open>Quote\<close> carry a prefix, their
  source names being in use for variables.
\<close>

record Client =
  client_name :: string
  client_address :: string
  client_phone :: string
  client_email :: string
  client_city :: string

type_synonym raw_item = "json \<times> json \<times> json"

record Quote =
  quote_number :: string
  quote_date :: date
  quote_client :: Client
  quote_items :: "raw_item list"
  quote_discount_value :: rat
  quote_discount_is_percent :: bool
  quote_place :: string
  quote_status :: string
  quote_materials :: json
  quote_serials :: json

text \<open>Lines 74-83: \<^verbatim>\<open>load_catalog\<close>.\<close>

definition catalog_row :: "pylib \<Rightarrow> row \<Rightarrow> error + Item" where
  "catalog_row L r =
     then_do (getitem r ''description'') (\<lambda>d.
     then_do (then_do (getitem r ''unit_price'') (py_float L)) (\<lambda>p.
     then_do (then_do (getitem r ''quantity'') (py_int L)) (\<lambda>q.
     Inr \<lparr>description = d, unit_price = p, Item.quantity = q\<rparr>)))"

definition load_catalog :: "pylib \<Rightarrow> files \<Rightarrow> string \<Rightarrow> error + Item list" where
  "load_catalog L fs path =
     except_FileNotFoundError
       (then_do (open_file fs path) (for_each (catalog_row L))) []"

text \<open>Lines 101-110: \<^verbatim>\<open>load_clients\<close>.\<close>

definition client_row :: "row \<Rightarrow> error + Client" where
  "client_row r =
     then_do (getitem r ''name'') (\<lambda>n.
     then_do (getitem r ''address'') (\<lambda>a.
     then_do (getitem r ''phone'') (\<lambda>p.
     then_do (getitem r ''email'') (\<lambda>e.
     then_do (getitem r ''city'') (\<lambda>c.
     Inr \<lparr>client_name = n, client_address = a, client_phone = p, client_email = e,
          client_city = c\<rparr>)))))"

definition load_clients :: "files \<Rightarrow> string \<Rightarrow> error + Client list" where
  "load_clients fs path =
     except_FileNotFoundError (then_do (open_file fs path) (for_each client_row)) []"

text \<open>
  Lines 112-153: \<^verbatim>\<open>load_quotes\<close>. Line 119 iterates the decoded value of the items
  column (a list yields its elements, an object its keys, a string its characters, anything
  else is not iterable) and applies \<^verbatim>\<open>Item(**it)\<close> to each. Lines 127-137 decode the
  materials and serials columns under a bare \<^verbatim>\<open>except\<close>.
\<close>

definition item_of_json :: "json \<Rightarrow> error + raw_item" where
  "item_of_json it =
     (case it of
        JObject kvs \<Rightarrow>
          (if set (map fst kvs) = {''description'', ''unit_price'', ''quantity''}
           then (case (map_of kvs ''description'', map_of kvs ''unit_price'', map_of kvs ''quantity'') of
                   (Some d, Some p, Some q) \<Rightarrow> Inr (d, p, q)
                 | _ \<Rightarrow> Inl TypeError)
           else Inl TypeError)
      | _ \<Rightarrow> Inl TypeError)"

definition items_of_json :: "json \<Rightarrow> error + raw_item list" where
  "items_of_json j =
     (case j of
        JArray xs \<Rightarrow> for_each item_of_json xs
      | JObject kvs \<Rightarrow> for_each item_of_json (map (\<lambda>kv. JString (fst kv)) kvs)
      | JString s \<Rightarrow> for_each item_of_json (map (\<lambda>c. JString [c]) s)
      | _ \<Rightarrow> Inl TypeError)"

definition optional_json :: "pylib \<Rightarrow> row \<Rightarrow> string \<Rightarrow> json" where
  "optional_json L r k =
     (case py_json_loads L (get_or r k ''[]'') of
        Inl e \<Rightarrow> JArray []
      | Inr j \<Rightarrow> j)"

definition quote_client_of :: "row \<Rightarrow> error + Client" where
  "quote_client_of r =
     then_do (getitem r ''client_name'') (\<lambda>n.
     then_do (getitem r ''client_address'') (\<lambda>a.
     then_do (getitem r ''client_phone'') (\<lambda>p.
     then_do (getitem r ''client_email'') (\<lambda>e.
     then_do (getitem r ''client_city'') (\<lambda>c.
     Inr \<lparr>client_name = n, client_address = a, client_phone = p, client_email = e,
          client_city = c\<rparr>)))))"

definition quote_row :: "pylib \<Rightarrow> row \<Rightarrow> error + Quote" where
  "quote_row L r =
     then_do (then_do (then_do (getitem r ''items'') (py_json_loads L)) items_of_json) (\<lambda>its.
     then_do (quote_client_of r) (\<lambda>cl.
     (let mats = optional_json L r ''materials'';
          sers = optional_json L r ''serials''
      in
     then_do (getitem r ''number'') (\<lambda>num.
     then_do (then_do (getitem r ''date'') (py_strptime L)) (\<lambda>dat.
     then_do (then_do (getitem r ''discount_value'') (py_float L)) (\<lambda>dv.
     then_do (getitem r ''discount_is_percent'') (\<lambda>pc.
     then_do (getitem r ''place'') (\<lambda>pl.
     Inr \<lparr>quote_number = num, quote_date = dat, quote_client = cl, quote_items = its,
          quote_discount_value = dv, quote_discount_is_percent = (pc = ''True''),
          quote_place = pl, quote_status = get_or r ''status'' ''quote'',
          quote_materials = mats, quote_serials = sers\<rparr>))))))))"

definition load_quotes :: "pylib \<Rightarrow> files \<Rightarrow> string \<Rightarrow> error + Quote list" where
  "load_quotes L fs path =
     except_FileNotFoundError (then_do (open_file fs path) (for_each (quote_row L))) []"

text \<open>Lines 156-171: \<^verbatim>\<open>load_stock\<close>.\<close>

definition stock_row :: "pylib \<Rightarrow> row \<Rightarrow> error + StockItem" where
  "stock_row L r =
     then_do (getitem r ''name'') (\<lambda>n.
     then_do (getitem r ''lot_number'') (\<lambda>l.
     then_do (getitem r ''entry_date'') (\<lambda>d.
     then_do (then_do (getitem r ''quantity'') (py_int L)) (\<lambda>q.
     Inr \<lparr>StockItem.name = n, color = get_or r ''color'' '''', lot_number = l, entry_date = d,
          quantity = q\<rparr>))))"

definition load_stock :: "pylib \<Rightarrow> files \<Rightarrow> string \<Rightarrow> error + StockItem list" where
  "load_stock L fs path =
     except_FileNotFoundError (then_do (open_file fs path) (for_each (stock_row L))) []"

text \<open>A column that is absent from the row, or whose text \<^verbatim>\<open>json.loads\<close> rejects.\<close>

definition missing_or_malformed :: "pylib \<Rightarrow> row \<Rightarrow> string \<Rightarrow> bool" where
  "missing_or_malformed L r k = (case r k of None \<Rightarrow> True | Some s \<Rightarrow> json_loads L s = None)"


section \<open>Example data\<close>


definition stock_lot :: "string \<Rightarrow> int \<Rightarrow> StockItem" where
  "stock_lot l q =
     \<lparr>StockItem.name = ''cuir'', color = ''noir'', lot_number = l, entry_date = ''2024-01-15'',
      quantity = q\<rparr>"

definition pair :: "string \<Rightarrow> int \<Rightarrow> material" where
  "pair l q = \<lparr>material.name = ''cuir'', lot = l, qty = q\<rparr>"

definition binding :: "string \<Rightarrow> material list \<Rightarrow> serial_entry" where
  "binding s ms = \<lparr>serial = s, product = ''sac'', materials = ms\<rparr>"

text \<open>
  A stand-in for the library that parses only the texts of the example, and a row of a
  quotes file written before the serials column existed, with an unparseable materials cell.
\<close>

definition toy_lib :: pylib where
  "toy_lib =
     \<lparr>float_of = (\<lambda>s. if s = ''10.0'' then Some 10 else None),
      int_of = (\<lambda>s. if s = ''1'' then Some 1 else None),
      json_loads = (\<lambda>s. if s = ''[]'' then Some (JArray []) else None),
      strptime_ymd = (\<lambda>s. if s = ''2024-01-15'' then Some (2024, 1, 15) else None)\<rparr>"

definition legacy_row :: row where
  "legacy_row =
     [''number'' \<mapsto> ''20240115-001'', ''date'' \<mapsto> ''2024-01-15'',
      ''client_name'' \<mapsto> ''Durand'', ''client_address'' \<mapsto> ''1 rue A'',
      ''client_phone'' \<mapsto> ''0102'', ''client_email'' \<mapsto> ''d@x.fr'',
      ''client_city'' \<mapsto> ''Lyon'', ''items'' \<mapsto> ''[]'', ''discount_value'' \<mapsto> ''10.0'',
      ''discount_is_percent'' \<mapsto> ''True'', ''place'' \<mapsto> ''Lyon'',
      ''materials'' \<mapsto> ''[{not json'']"


section \<open>The passes as a list of quantity changes\<close>

lemma update_first_none: "find P xs = None \<Longrightarrow> update_first P f xs = xs"
  by (induction xs) (auto split: if_splits)

lemma consume_mat_adjust:
  "consume_mat oe stock mat = adjust stock (lot mat, old_qty_of oe (lot mat) - qty mat)"
proof -
  have arith: "q - (a - b) = q + (b - a)" for q a b :: int
    by simp
  show ?thesis
    by (simp add: consume_mat_def adjust_def update_first_none Let_def arith split: option.splits)
qed

lemma consume_mat_adjust_fun:
  "consume_mat oe = (\<lambda>stock mat. adjust stock (lot mat, old_qty_of oe (lot mat) - qty mat))"
  by (intro ext) (rule consume_mat_adjust)

lemma credit_mat_adjust: "credit_mat stock om = adjust stock (lot om, qty om)"
  by (simp add: credit_mat_def adjust_def update_first_none split: option.splits)

lemma credit_mat_adjust_fun: "credit_mat = (\<lambda>stock om. adjust stock (lot om, qty om))"
  by (intro ext) (rule credit_mat_adjust)

lemma foldl_cond_filter:
  "foldl (\<lambda>st x. if P x then g st x else st) st xs = foldl g st (filter P xs)"
  by (induction xs arbitrary: st) auto

lemma consume_serial_adjust:
  "consume_serial old_serials stock ns =
     foldl adjust stock (map (\<lambda>mat. (lot mat,
         old_qty_of (find (\<lambda>s. serial s = serial ns) old_serials) (lot mat) - qty mat))
       (materials ns))"
  by (simp add: consume_serial_def Let_def foldl_map consume_mat_adjust_fun)

lemma consumption_pass_adjust:
  "consumption_pass old_serials new_serials stock =
     foldl adjust stock (consume_deltas old_serials new_serials)"
  unfolding consumption_pass_def consume_deltas_def
  by (induction new_serials arbitrary: stock) (simp_all add: consume_serial_adjust)

lemma recredit_serial_adjust:
  "recredit_serial new_serials stock old =
     foldl adjust stock (map (\<lambda>om. (lot om, qty om)) (dropped_mats new_serials old))"
  by (simp add: recredit_serial_def dropped_mats_def Let_def foldl_map credit_mat_adjust_fun
        foldl_cond_filter split: option.splits)

lemma recredit_pass_adjust:
  "recredit_pass old_serials new_serials stock =
     foldl adjust stock (recredit_deltas old_serials new_serials)"
  unfolding recredit_pass_def recredit_deltas_def
  by (induction old_serials arbitrary: stock) (simp_all add: recredit_serial_adjust)

lemma reconcile_adjust:
  "reconcile old_serials new_serials stock =
     foldl adjust stock (consume_deltas old_serials new_serials @ recredit_deltas old_serials new_serials)"
  by (simp add: reconcile_def consumption_pass_adjust recredit_pass_adjust)

lemma bump_head_0 [simp]: "bump_head 0 ms = ms"
  by (simp add: bump_head_def split: list.splits)

lemma bump_head_bump_head [simp]: "bump_head d (bump_head d' ms) = bump_head (d' + d) ms"
  by (simp add: bump_head_def split: list.splits)

lemma filter_adjust:
  "filter (\<lambda>m. lot_number m = l) (adjust stock (l', d)) =
     (if l = l' then bump_head d (filter (\<lambda>m. lot_number m = l) stock)
      else filter (\<lambda>m. lot_number m = l) stock)"
  by (induction stock) (auto simp: adjust_def bump_head_def)

lemma filter_foldl_adjust:
  "filter (\<lambda>m. lot_number m = l) (foldl adjust stock ds) =
     bump_head (delta_sum ds l) (filter (\<lambda>m. lot_number m = l) stock)"
proof (induction ds arbitrary: stock)
  case Nil
  then show ?case by (simp add: delta_sum_def)
next
  case (Cons ld ds)
  obtain l' d where ld: "ld = (l', d)" by (cases ld)
  show ?case
    by (simp add: Cons.IH ld filter_adjust delta_sum_def)
qed

lemma ledger_qty_filter:
  "ledger_qty stock l =
     (case filter (\<lambda>m. lot_number m = l) stock of [] \<Rightarrow> None | m # rest \<Rightarrow> Some (StockItem.quantity m))"
  by (induction stock) (auto simp: ledger_qty_def)

lemma ledger_qty_foldl_adjust:
  "ledger_qty (foldl adjust stock ds) l =
     map_option (\<lambda>q. q + delta_sum ds l) (ledger_qty stock l)"
  by (simp add: ledger_qty_filter filter_foldl_adjust bump_head_def split: list.splits)

lemma lot_number_adjust: "map lot_number (adjust stock ld) = map lot_number stock"
  by (induction stock) (auto simp: adjust_def)

lemma lot_number_foldl_adjust: "map lot_number (foldl adjust stock ds) = map lot_number stock"
  by (induction ds arbitrary: stock) (simp_all add: lot_number_adjust)

lemma delta_sum_append: "delta_sum (xs @ ys) l = delta_sum xs l + delta_sum ys l"
  by (simp add: delta_sum_def)

lemma delta_sum_concat: "delta_sum (concat xss) l = sum_list (map (\<lambda>xs. delta_sum xs l) xss)"
  by (induction xss) (simp_all add: delta_sum_append, simp add: delta_sum_def)

lemma delta_sum_credits:
  "delta_sum (map (\<lambda>om. (lot om, qty om)) ms) l = sum_list (map qty (filter (\<lambda>m. lot m = l) ms))"
  by (induction ms) (simp_all add: delta_sum_def)

lemma delta_sum_debits:
  "delta_sum (map (\<lambda>mat. (lot mat, oq (lot mat) - qty mat)) ms) l =
     int (length (filter (\<lambda>m. lot m = l) ms)) * oq l - sum_list (map qty (filter (\<lambda>m. lot m = l) ms))"
  by (induction ms) (simp_all add: delta_sum_def algebra_simps)

lemma distinct_lot_count:
  "distinct (map lot ms) \<Longrightarrow>
     int (length (filter (\<lambda>m. lot m = l) ms)) = (if list_ex (\<lambda>m. lot m = l) ms then 1 else 0)"
proof (induction ms)
  case Nil
  then show ?case by simp
next
  case (Cons m ms)
  show ?case
  proof (cases "lot m = l")
    case True
    with Cons.prems have "filter (\<lambda>m. lot m = l) ms = []"
      unfolding filter_empty_conv by (simp add: image_iff) metis
    with True show ?thesis by simp
  next
    case False
    with Cons show ?thesis by simp
  qed
qed

lemma distinct_lot_find:
  "distinct (map lot ms) \<Longrightarrow>
     (case find (\<lambda>m. lot m = l) ms of None \<Rightarrow> 0 | Some m \<Rightarrow> qty m) =
       sum_list (map qty (filter (\<lambda>m. lot m = l) ms))"
proof (induction ms)
  case Nil
  then show ?case by simp
next
  case (Cons m ms)
  show ?case
  proof (cases "lot m = l")
    case True
    with Cons.prems have "filter (\<lambda>m. lot m = l) ms = []"
      unfolding filter_empty_conv by (simp add: image_iff) metis
    with True show ?thesis by simp
  next
    case False
    with Cons show ?thesis by simp
  qed
qed

lemma old_qty_of_binding_qty:
  "distinct (map lot (materials oe)) \<Longrightarrow> old_qty_of (Some oe) l = binding_qty oe l"
  using distinct_lot_find [of "materials oe" l] by (simp add: old_qty_of_def binding_qty_def)

lemma filter_dropped:
  "filter (\<lambda>om. \<not> list_ex (\<lambda>m. lot m = lot om) kept \<and> lot om = l) ms =
     (if list_ex (\<lambda>m. lot m = l) kept then [] else filter (\<lambda>m. lot m = l) ms)"
  by (induction ms) auto

lemma delta_sum_dropped:
  "delta_sum (map (\<lambda>om. (lot om, qty om)) (dropped_mats new_serials old)) l =
     binding_qty old l -
       (case find (\<lambda>ns. serial ns = serial old) new_serials of
          Some still_present \<Rightarrow>
            if list_ex (\<lambda>m. lot m = l) (materials still_present) then binding_qty old l else 0
        | None \<Rightarrow> 0)"
  by (simp add: delta_sum_credits dropped_mats_def binding_qty_def filter_dropped
        split: option.splits)

lemma sum_list_cong_set:
  "(\<And>x. x \<in> set xs \<Longrightarrow> f x = g x) \<Longrightarrow> sum_list (map f xs) = sum_list (map g xs)"
  by (induction xs) auto

lemma sum_list_minus:
  fixes f g :: "'a \<Rightarrow> int"
  shows "sum_list (map (\<lambda>x. f x - g x) xs) = sum_list (map f xs) - sum_list (map g xs)"
  by (induction xs) auto

lemma delta_sum_recredit:
  "delta_sum (recredit_deltas old_serials new_serials) l =
     lot_total old_serials l -
       sum_list (map (\<lambda>old.
         case find (\<lambda>ns. serial ns = serial old) new_serials of
           Some still_present \<Rightarrow>
             if list_ex (\<lambda>m. lot m = l) (materials still_present) then binding_qty old l else 0
         | None \<Rightarrow> 0) old_serials)"
  by (simp add: recredit_deltas_def delta_sum_concat comp_def delta_sum_dropped sum_list_minus
        lot_total_def)

lemma delta_sum_consume:
  assumes "\<And>b. b \<in> set new_serials \<Longrightarrow> distinct (map lot (materials b))"
  shows "delta_sum (consume_deltas old_serials new_serials) l =
     sum_list (map (\<lambda>ns.
         if list_ex (\<lambda>m. lot m = l) (materials ns)
         then old_qty_of (find (\<lambda>s. serial s = serial ns) old_serials) l else 0) new_serials)
       - lot_total new_serials l"
proof -
  have "delta_sum (consume_deltas old_serials new_serials) l =
      sum_list (map (\<lambda>ns.
        int (length (filter (\<lambda>m. lot m = l) (materials ns))) *
           old_qty_of (find (\<lambda>s. serial s = serial ns) old_serials) l
         - binding_qty ns l) new_serials)"
    by (simp add: consume_deltas_def delta_sum_concat comp_def delta_sum_debits binding_qty_def)
  also have "\<dots> = sum_list (map (\<lambda>ns.
        (if list_ex (\<lambda>m. lot m = l) (materials ns)
         then old_qty_of (find (\<lambda>s. serial s = serial ns) old_serials) l else 0)
         - binding_qty ns l) new_serials)"
    by (rule sum_list_cong_set) (simp add: distinct_lot_count assms)
  finally show ?thesis
    by (simp add: sum_list_minus lot_total_def)
qed

lemma sum_list_single_serial:
  fixes f :: "serial_entry \<Rightarrow> int"
  shows "distinct (map serial bs) \<Longrightarrow>
     sum_list (map (\<lambda>b. if serial b = s then f b else 0) bs) =
       (case find (\<lambda>b. serial b = s) bs of Some b \<Rightarrow> f b | None \<Rightarrow> 0)"
proof (induction bs)
  case Nil
  then show ?case by simp
next
  case (Cons b bs)
  show ?case
  proof (cases "serial b = s")
    case True
    with Cons.prems have "\<And>x. x \<in> set bs \<Longrightarrow> serial x \<noteq> s"
      by (simp add: image_iff) metis
    then have "sum_list (map (\<lambda>b. if serial b = s then f b else 0) bs) = sum_list (map (\<lambda>b. 0) bs)"
      by (intro sum_list_cong_set) simp
    with True show ?thesis by simp
  next
    case False
    with Cons show ?thesis by simp
  qed
qed

lemma join_sum:
  fixes phi :: "serial_entry \<Rightarrow> serial_entry \<Rightarrow> int"
  assumes "distinct (map serial old_serials)" and "distinct (map serial new_serials)"
  shows "sum_list (map (\<lambda>old. case find (\<lambda>ns. serial ns = serial old) new_serials of
                                 Some ns \<Rightarrow> phi old ns | None \<Rightarrow> 0) old_serials) =
         sum_list (map (\<lambda>ns. case find (\<lambda>s. serial s = serial ns) old_serials of
                                 Some old \<Rightarrow> phi old ns | None \<Rightarrow> 0) new_serials)"
  using assms(1)
proof (induction old_serials)
  case Nil
  then show ?case by simp
next
  case (Cons b bs)
  let ?rest = "\<lambda>ns. case find (\<lambda>s. serial s = serial ns) bs of Some old \<Rightarrow> phi old ns | None \<Rightarrow> 0"
  have absent: "find (\<lambda>s. serial s = serial b) bs = None"
    using Cons.prems unfolding find_None_iff by (simp add: image_iff) metis
  have "sum_list (map (\<lambda>ns. case find (\<lambda>s. serial s = serial ns) (b # bs) of
                                 Some old \<Rightarrow> phi old ns | None \<Rightarrow> 0) new_serials) =
        sum_list (map (\<lambda>ns. (if serial ns = serial b then phi b ns else 0) + ?rest ns) new_serials)"
    by (rule sum_list_cong_set) (auto simp: absent)
  also have "\<dots> = sum_list (map (\<lambda>ns. if serial ns = serial b then phi b ns else 0) new_serials)
                    + sum_list (map ?rest new_serials)"
    by (simp add: sum_list_addf)
  also have "\<dots> = (case find (\<lambda>ns. serial ns = serial b) new_serials of
                      Some ns \<Rightarrow> phi b ns | None \<Rightarrow> 0) + sum_list (map ?rest new_serials)"
    by (simp add: sum_list_single_serial assms(2))
  finally show ?case
    using Cons by simp
qed

lemma net_delta:
  assumes "distinct (map serial old_serials)" and "distinct (map serial new_serials)"
    and old_lots: "\<And>b. b \<in> set old_serials \<Longrightarrow> distinct (map lot (materials b))"
    and new_lots: "\<And>b. b \<in> set new_serials \<Longrightarrow> distinct (map lot (materials b))"
  shows "delta_sum (consume_deltas old_serials new_serials @ recredit_deltas old_serials new_serials) l =
           lot_total old_serials l - lot_total new_serials l"
proof -
  let ?phi = "\<lambda>old ns. if list_ex (\<lambda>m. lot m = l) (materials ns) then binding_qty old l else 0"
  have "sum_list (map (\<lambda>ns.
         if list_ex (\<lambda>m. lot m = l) (materials ns)
         then old_qty_of (find (\<lambda>s. serial s = serial ns) old_serials) l else 0) new_serials) =
        sum_list (map (\<lambda>ns. case find (\<lambda>s. serial s = serial ns) old_serials of
                                 Some old \<Rightarrow> ?phi old ns | None \<Rightarrow> 0) new_serials)"
  proof (rule sum_list_cong_set)
    fix ns
    show "(if list_ex (\<lambda>m. lot m = l) (materials ns)
           then old_qty_of (find (\<lambda>s. serial s = serial ns) old_serials) l else 0) =
          (case find (\<lambda>s. serial s = serial ns) old_serials of
             Some old \<Rightarrow> ?phi old ns | None \<Rightarrow> 0)"
    proof (cases "find (\<lambda>s. serial s = serial ns) old_serials")
      case None
      then show ?thesis by (simp add: old_qty_of_def)
    next
      case (Some oe)
      then have "oe \<in> set old_serials"
        by (auto simp: find_Some_iff)
      then show ?thesis
        using Some by (simp add: old_qty_of_binding_qty old_lots)
    qed
  qed
  also have "\<dots> = sum_list (map (\<lambda>old. case find (\<lambda>ns. serial ns = serial old) new_serials of
                                 Some ns \<Rightarrow> ?phi old ns | None \<Rightarrow> 0) old_serials)"
    by (rule join_sum [OF assms(1,2), symmetric])
  finally show ?thesis
    by (simp add: delta_sum_append delta_sum_consume new_lots delta_sum_recredit)
qed


section \<open>Reconciliation: properties\<close>

lemmas example_defs = stock_lot_def pair_def binding_def

lemmas reconcile_defs =
  reconcile_def consumption_pass_def recredit_pass_def consume_serial_def recredit_serial_def
  consume_mat_def credit_mat_def old_qty_of_def ledger_qty_def lot_total_def binding_qty_def

lemma reconcile_filter:
  "filter (\<lambda>m. lot_number m = l) (reconcile old_serials new_serials stock) =
     bump_head (delta_sum (consume_deltas old_serials new_serials @ recredit_deltas old_serials new_serials) l)
       (filter (\<lambda>m. lot_number m = l) stock)"
  by (simp only: reconcile_adjust filter_foldl_adjust)

lemma reconcile_ledger_qty:
  "ledger_qty (reconcile old_serials new_serials stock) l =
     map_option (\<lambda>q. q + delta_sum (consume_deltas old_serials new_serials @ recredit_deltas old_serials new_serials) l)
       (ledger_qty stock l)"
  by (simp only: reconcile_adjust ledger_qty_foldl_adjust)

text \<open>
  Claim C1, as stated, fails: the passes have no floor check. A lot holding 2 units, bound
  with quantity 2 to each of two new serials (each within what the quantity input accepts),
  ends at -2.
\<close>

theorem reconcile_negative_counterexample:
  "map StockItem.quantity [stock_lot ''L1'' 2] = [2] \<and>
   map StockItem.quantity
     (reconcile []
        [binding ''F-001'' [pair ''L1'' 2], binding ''F-002'' [pair ''L1'' 2]]
        [stock_lot ''L1'' 2]) = [- 2]"
  by (simp add: reconcile_defs example_defs)

text \<open>
  Claim C1, amended: when serial identifiers are distinct within the old and within the new
  list, lot numbers are distinct within each binding, every quantity of the ledger is
  non-negative, and for every lot of the ledger the quantity bound by the new list minus the
  quantity bound by the old list does not exceed the lot's ledger quantity, then no item of
  the reconciled stock has a negative quantity.
\<close>

theorem reconcile_nonnegative:
  assumes nonneg: "\<forall>m \<in> set stock. 0 \<le> StockItem.quantity m"
    and "distinct (map serial old_serials)" and "distinct (map serial new_serials)"
    and "\<forall>b \<in> set old_serials. distinct (map lot (materials b))"
    and "\<forall>b \<in> set new_serials. distinct (map lot (materials b))"
    and enough: "\<forall>l q. ledger_qty stock l = Some q \<longrightarrow>
                   lot_total new_serials l - lot_total old_serials l \<le> q"
  shows "\<forall>m \<in> set (reconcile old_serials new_serials stock). 0 \<le> StockItem.quantity m"
proof
  fix m
  assume m: "m \<in> set (reconcile old_serials new_serials stock)"
  let ?l = "lot_number m"
  let ?same = "filter (\<lambda>x. lot_number x = ?l) stock"
  have net: "delta_sum (consume_deltas old_serials new_serials @ recredit_deltas old_serials new_serials) ?l =
        lot_total old_serials ?l - lot_total new_serials ?l"
    using assms(2-5) by (intro net_delta) auto
  define d where "d = lot_total old_serials ?l - lot_total new_serials ?l"
  from m have "m \<in> set (filter (\<lambda>x. lot_number x = ?l) (reconcile old_serials new_serials stock))"
    by simp
  then have in_bumped: "m \<in> set (bump_head d ?same)"
    by (simp only: reconcile_filter net d_def)
  show "0 \<le> StockItem.quantity m"
  proof (cases ?same)
    case Nil
    with in_bumped show ?thesis by (simp add: bump_head_def)
  next
    case (Cons m0 rest)
    then have "ledger_qty stock ?l = Some (StockItem.quantity m0)"
      by (simp add: ledger_qty_filter)
    with enough have le: "0 \<le> StockItem.quantity m0 + d"
      unfolding d_def by fastforce
    from in_bumped Cons
    consider "m = m0\<lparr>StockItem.quantity := StockItem.quantity m0 + d\<rparr>" | "m \<in> set rest"
      by (auto simp: bump_head_def)
    then show ?thesis
    proof cases
      case 1
      then have "StockItem.quantity m = StockItem.quantity m0 + d"
        by simp
      with le show ?thesis by simp
    next
      case 2
      then have "m \<in> set ?same" using Cons by simp
      then have "m \<in> set stock" by simp
      with nonneg show ?thesis by blast
    qed
  qed
qed

theorem reconcile_nonnegative_witness:
  "map StockItem.quantity
     (reconcile [binding ''F-001'' [pair ''L1'' 2]]
        [binding ''F-001'' [pair ''L1'' 5], binding ''F-002'' [pair ''L2'' 4]]
        [stock_lot ''L1'' 3, stock_lot ''L2'' 4]) = [0, 0] \<and>
   list_all (\<lambda>m. 0 \<le> StockItem.quantity m)
     (reconcile [binding ''F-001'' [pair ''L1'' 2]]
        [binding ''F-001'' [pair ''L1'' 5], binding ''F-002'' [pair ''L2'' 4]]
        [stock_lot ''L1'' 3, stock_lot ''L2'' 4])"
proof -
  let ?old = "[binding ''F-001'' [pair ''L1'' 2]]"
  let ?new = "[binding ''F-001'' [pair ''L1'' 5], binding ''F-002'' [pair ''L2'' 4]]"
  let ?stock = "[stock_lot ''L1'' 3, stock_lot ''L2'' 4]"
  have 1: "\<forall>m \<in> set ?stock. 0 \<le> StockItem.quantity m"
    by (simp add: example_defs)
  have 2: "distinct (map serial ?old)" and 3: "distinct (map serial ?new)"
    by (simp_all add: example_defs)
  have 4: "\<forall>b \<in> set ?old. distinct (map lot (materials b))"
    and 5: "\<forall>b \<in> set ?new. distinct (map lot (materials b))"
    by (simp_all add: example_defs)
  have 6: "\<forall>l q. ledger_qty ?stock l = Some q \<longrightarrow> lot_total ?new l - lot_total ?old l \<le> q"
    by (auto simp: ledger_qty_def lot_total_def binding_qty_def example_defs split: if_splits)
  have "\<forall>m \<in> set (reconcile ?old ?new ?stock). 0 \<le> StockItem.quantity m"
    by (rule reconcile_nonnegative [OF 1 2 3 4 5 6])
  moreover have "map StockItem.quantity (reconcile ?old ?new ?stock) = [0, 0]"
    by (simp add: reconcile_defs example_defs)
  ultimately show ?thesis
    by (simp add: list_all_iff)
qed

text \<open>
  Claim C2, as stated, fails when a serial identifier occurs twice in a list: the lookup by
  serial takes the first entry only. Every lot exists and lot numbers are unique within each
  binding, the old and the new list both hold 2 of lot L1, and the ledger goes from 10 to 9.
\<close>

theorem reconcile_conservation_counterexample:
  "ledger_qty [stock_lot ''L1'' 10] ''L1'' = Some 10 \<and>
   lot_total [binding ''F-001'' [pair ''L1'' 1], binding ''F-001'' [pair ''L1'' 1]] ''L1'' = 2 \<and>
   lot_total [binding ''F-001'' [pair ''L1'' 2]] ''L1'' = 2 \<and>
   ledger_qty
     (reconcile [binding ''F-001'' [pair ''L1'' 1], binding ''F-001'' [pair ''L1'' 1]]
        [binding ''F-001'' [pair ''L1'' 2]]
        [stock_lot ''L1'' 10]) ''L1'' = Some 9"
  by (simp add: reconcile_defs example_defs)

text \<open>
  Claim C2, amended: when serial identifiers are distinct within the old and within the new
  list and lot numbers are distinct within each binding, then after reconciliation the
  ledger quantity of every lot is its prior quantity minus the sum of that lot's quantities
  over the new bindings plus the sum over the old bindings (a lot absent from the ledger
  stays absent).
\<close>

theorem reconcile_conservation:
  assumes "distinct (map serial old_serials)" and "distinct (map serial new_serials)"
    and "\<forall>b \<in> set old_serials. distinct (map lot (materials b))"
    and "\<forall>b \<in> set new_serials. distinct (map lot (materials b))"
  shows "ledger_qty (reconcile old_serials new_serials stock) l =
           map_option (\<lambda>q. q - lot_total new_serials l + lot_total old_serials l)
             (ledger_qty stock l)"
proof -
  have "delta_sum (consume_deltas old_serials new_serials @ recredit_deltas old_serials new_serials) l =
        lot_total old_serials l - lot_total new_serials l"
    using assms by (intro net_delta) auto
  then have "ledger_qty (reconcile old_serials new_serials stock) l =
      map_option (\<lambda>q. q + (lot_total old_serials l - lot_total new_serials l)) (ledger_qty stock l)"
    by (simp only: reconcile_ledger_qty)
  also have "(\<lambda>q. q + (lot_total old_serials l - lot_total new_serials l)) =
             (\<lambda>q. q - lot_total new_serials l + lot_total old_serials l)"
    by (intro ext) simp
  finally show ?thesis .
qed

theorem reconcile_conservation_witness:
  "ledger_qty
     (reconcile [binding ''F-001'' [pair ''L1'' 2, pair ''L2'' 1], binding ''F-002'' [pair ''L1'' 4]]
        [binding ''F-001'' [pair ''L1'' 5, pair ''L3'' 2]]
        [stock_lot ''L1'' 10, stock_lot ''L2'' 6, stock_lot ''L3'' 8]) ''L1'' = Some (10 - 5 + 6) \<and>
   ledger_qty
     (reconcile [binding ''F-001'' [pair ''L1'' 2, pair ''L2'' 1], binding ''F-002'' [pair ''L1'' 4]]
        [binding ''F-001'' [pair ''L1'' 5, pair ''L3'' 2]]
        [stock_lot ''L1'' 10, stock_lot ''L2'' 6, stock_lot ''L3'' 8]) ''L2'' = Some (6 - 0 + 1)"
proof -
  let ?old = "[binding ''F-001'' [pair ''L1'' 2, pair ''L2'' 1], binding ''F-002'' [pair ''L1'' 4]]"
  let ?new = "[binding ''F-001'' [pair ''L1'' 5, pair ''L3'' 2]]"
  let ?stock = "[stock_lot ''L1'' 10, stock_lot ''L2'' 6, stock_lot ''L3'' 8]"
  have 1: "distinct (map serial ?old)" and 2: "distinct (map serial ?new)"
    by (simp_all add: example_defs)
  have 3: "\<forall>b \<in> set ?old. distinct (map lot (materials b))"
    and 4: "\<forall>b \<in> set ?new. distinct (map lot (materials b))"
    by (simp_all add: example_defs)
  have totals: "lot_total ?new ''L1'' = 5" "lot_total ?old ''L1'' = 6"
      "lot_total ?new ''L2'' = 0" "lot_total ?old ''L2'' = 1"
    by (simp_all add: lot_total_def binding_qty_def example_defs)
  have ledger: "ledger_qty ?stock ''L1'' = Some 10" "ledger_qty ?stock ''L2'' = Some 6"
    by (simp_all add: ledger_qty_def example_defs)
  show ?thesis
    using reconcile_conservation [OF 1 2 3 4, of ?stock "''L1''"]
      reconcile_conservation [OF 1 2 3 4, of ?stock "''L2''"]
    by (simp only: totals ledger option.map)
qed











lemma find_remove1_other: "\<not> P b \<Longrightarrow> find P (remove1 b xs) = find P xs"
  by (induction xs) auto

lemma consume_deltas_remove1:
  assumes "serial b \<notin> serial ` set new_serials"
  shows "consume_deltas (remove1 b old_serials) new_serials = consume_deltas old_serials new_serials"
proof -
  have "find (\<lambda>s. serial s = serial ns) (remove1 b old_serials) =
        find (\<lambda>s. serial s = serial ns) old_serials" if "ns \<in> set new_serials" for ns
  proof -
    from that assms have "serial b \<noteq> serial ns" by (simp add: image_iff)
    then show ?thesis by (simp add: find_remove1_other)
  qed
  then show ?thesis
    unfolding consume_deltas_def by (intro arg_cong [where f = concat] map_cong) simp_all
qed

lemma dropped_mats_absent:
  "serial b \<notin> serial ` set new_serials \<Longrightarrow> dropped_mats new_serials b = materials b"
proof -
  assume "serial b \<notin> serial ` set new_serials"
  then have "find (\<lambda>ns. serial ns = serial b) new_serials = None"
    unfolding find_None_iff by (simp add: image_iff) metis
  then show ?thesis by (simp add: dropped_mats_def)
qed

lemma delta_sum_recredit_list:
  "delta_sum (recredit_deltas old_serials new_serials) l =
     sum_list (map (\<lambda>old. delta_sum (map (\<lambda>om. (lot om, qty om)) (dropped_mats new_serials old)) l)
       old_serials)"
  by (simp add: recredit_deltas_def delta_sum_concat comp_def)

lemma delta_sum_recredit_remove1:
  assumes "b \<in> set old_serials" and "serial b \<notin> serial ` set new_serials"
  shows "delta_sum (recredit_deltas old_serials new_serials) l =
           binding_qty b l + delta_sum (recredit_deltas (remove1 b old_serials) new_serials) l"
  using sum_list_map_remove1 [OF assms(1),
      of "\<lambda>old. delta_sum (map (\<lambda>om. (lot om, qty om)) (dropped_mats new_serials old)) l"]
  by (simp add: delta_sum_recredit_list dropped_mats_absent [OF assms(2)] delta_sum_credits
        binding_qty_def)

text \<open>
  Claim C4: for an old binding whose serial does not occur in the new list, the recredit
  step credits every lot with the full quantity the binding held of it, and the reconciled
  ledger is the one obtained without that binding plus that full quantity. The witness is the
  scenario of the spec: dropping serial X-002, which held 3 of lot L2, raises L2 by 3.
\<close>

theorem removed_serial_recredited:
  assumes "b \<in> set old_serials" and "serial b \<notin> serial ` set new_serials"
  shows "ledger_qty (recredit_serial new_serials stock b) l =
           map_option (\<lambda>q. q + binding_qty b l) (ledger_qty stock l) \<and>
         ledger_qty (reconcile old_serials new_serials stock) l =
           map_option (\<lambda>q. q + binding_qty b l)
             (ledger_qty (reconcile (remove1 b old_serials) new_serials stock) l)"
proof
  show "ledger_qty (recredit_serial new_serials stock b) l =
          map_option (\<lambda>q. q + binding_qty b l) (ledger_qty stock l)"
    by (simp add: recredit_serial_adjust ledger_qty_foldl_adjust dropped_mats_absent [OF assms(2)]
          delta_sum_credits binding_qty_def)
next
  have "delta_sum (consume_deltas old_serials new_serials @ recredit_deltas old_serials new_serials) l =
        delta_sum (consume_deltas (remove1 b old_serials) new_serials @
                   recredit_deltas (remove1 b old_serials) new_serials) l + binding_qty b l"
    by (simp add: delta_sum_append consume_deltas_remove1 [OF assms(2)]
          delta_sum_recredit_remove1 [OF assms])
  then show "ledger_qty (reconcile old_serials new_serials stock) l =
          map_option (\<lambda>q. q + binding_qty b l)
            (ledger_qty (reconcile (remove1 b old_serials) new_serials stock) l)"
    by (simp only: reconcile_ledger_qty option.map_comp comp_def add.assoc)
qed

theorem removed_serial_recredited_witness:
  "ledger_qty [stock_lot ''L1'' 8, stock_lot ''L2'' 7] ''L2'' = Some 7 \<and>
   ledger_qty
     (reconcile [binding ''X-001'' [pair ''L1'' 2], binding ''X-002'' [pair ''L2'' 3]]
        [binding ''X-001'' [pair ''L1'' 2]]
        [stock_lot ''L1'' 8, stock_lot ''L2'' 7]) ''L2'' = Some (7 + 3)"
proof -
  let ?old = "[binding ''X-001'' [pair ''L1'' 2], binding ''X-002'' [pair ''L2'' 3]]"
  let ?new = "[binding ''X-001'' [pair ''L1'' 2]]"
  let ?stock = "[stock_lot ''L1'' 8, stock_lot ''L2'' 7]"
  let ?b = "binding ''X-002'' [pair ''L2'' 3]"
  have 1: "?b \<in> set ?old"
    by simp
  have 2: "serial ?b \<notin> serial ` set ?new"
    by (simp add: example_defs)
  have rest: "ledger_qty (reconcile (remove1 ?b ?old) ?new ?stock) ''L2'' = Some 7"
    by (simp add: reconcile_defs example_defs)
  have held: "binding_qty ?b ''L2'' = 3"
    by (simp add: binding_qty_def example_defs)
  have before: "ledger_qty ?stock ''L2'' = Some 7"
    by (simp add: ledger_qty_def example_defs)
  from removed_serial_recredited [OF 1 2, of ?stock "''L2''"]
  have "ledger_qty (reconcile ?old ?new ?stock) ''L2'' =
          map_option (\<lambda>q. q + binding_qty ?b ''L2'')
            (ledger_qty (reconcile (remove1 ?b ?old) ?new ?stock) ''L2'')"
    by (rule conjunct2)
  then show ?thesis
    by (simp only: rest held before option.map simp_thms)
qed

lemma adjust_unknown: "fst ld \<notin> lot_number ` set stock \<Longrightarrow> adjust stock ld = stock"
proof -
  assume "fst ld \<notin> lot_number ` set stock"
  then have "find (\<lambda>m. lot_number m = fst ld) stock = None"
    unfolding find_None_iff by (simp add: image_iff) metis
  then show ?thesis by (simp add: adjust_def update_first_none)
qed

lemma lot_numbers_adjust: "lot_number ` set (adjust stock ld) = lot_number ` set stock"
  using lot_number_adjust [of stock ld] by (metis set_map)

lemma foldl_adjust_known:
  "foldl adjust stock (filter (\<lambda>ld. fst ld \<in> S) ds) = foldl adjust stock ds"
  if "S = lot_number ` set stock"
  using that
proof (induction ds arbitrary: stock)
  case Nil
  then show ?case by simp
next
  case (Cons ld ds)
  show ?case
  proof (cases "fst ld \<in> S")
    case True
    have "S = lot_number ` set (adjust stock ld)"
      by (simp add: Cons.prems lot_numbers_adjust)
    with True Cons.IH [of "adjust stock ld"] show ?thesis by simp
  next
    case False
    then have "adjust stock ld = stock"
      using Cons.prems by (simp add: adjust_unknown)
    with False Cons show ?thesis by simp
  qed
qed

lemma find_filter_implied:
  "(\<And>x. P x \<Longrightarrow> Q x) \<Longrightarrow> find P (filter Q xs) = find P xs"
  by (induction xs) auto

lemma list_ex_filter_implied:
  "(\<And>x. P x \<Longrightarrow> Q x) \<Longrightarrow> list_ex P (filter Q xs) = list_ex P xs"
  by (induction xs) auto

lemma find_map_known_pairs:
  "find (\<lambda>s. serial s = k) (map (known_pairs stock) bs) =
     map_option (known_pairs stock) (find (\<lambda>s. serial s = k) bs)"
  by (induction bs) (simp_all add: known_pairs_def)

lemma old_qty_of_known_pairs:
  "l \<in> lot_number ` set stock \<Longrightarrow>
     old_qty_of (map_option (known_pairs stock) oe) l = old_qty_of oe l"
proof -
  assume l: "l \<in> lot_number ` set stock"
  have "find (\<lambda>m2. lot m2 = l) (filter (\<lambda>m. lot m \<in> lot_number ` set stock) ms) =
        find (\<lambda>m2. lot m2 = l) ms" for ms :: "material list"
    by (rule find_filter_implied) (use l in simp)
  then show ?thesis
    by (cases oe) (simp_all add: old_qty_of_def known_pairs_def)
qed

lemma filter_concat_map: "filter P (concat (map f xs)) = concat (map (\<lambda>x. filter P (f x)) xs)"
  by (induction xs) simp_all

lemma consume_deltas_known:
  "consume_deltas (map (known_pairs stock) old_serials) (map (known_pairs stock) new_serials) =
     filter (\<lambda>ld. fst ld \<in> lot_number ` set stock) (consume_deltas old_serials new_serials)"
proof -
  have one: "map (\<lambda>mat. (lot mat,
          old_qty_of (find (\<lambda>s. serial s = serial (known_pairs stock ns))
            (map (known_pairs stock) old_serials)) (lot mat) - qty mat))
        (materials (known_pairs stock ns)) =
      filter (\<lambda>ld. fst ld \<in> lot_number ` set stock)
        (map (\<lambda>mat. (lot mat,
          old_qty_of (find (\<lambda>s. serial s = serial ns) old_serials) (lot mat) - qty mat))
        (materials ns))" for ns
  proof -
    have "serial (known_pairs stock ns) = serial ns"
      by (simp add: known_pairs_def)
    then show ?thesis
      by (simp add: filter_map comp_def find_map_known_pairs known_pairs_def [of stock ns]
            old_qty_of_known_pairs cong: map_cong)
  qed
  show ?thesis
    unfolding consume_deltas_def by (simp add: filter_concat_map comp_def one)
qed

lemma dropped_mats_known:
  "dropped_mats (map (known_pairs stock) new_serials) (known_pairs stock old) =
     filter (\<lambda>m. lot m \<in> lot_number ` set stock) (dropped_mats new_serials old)"
proof -
  have ser: "serial (known_pairs stock old) = serial old"
    by (simp add: known_pairs_def)
  show ?thesis
  proof (cases "find (\<lambda>ns. serial ns = serial old) new_serials")
    case None
    then show ?thesis
      by (simp add: dropped_mats_def ser find_map_known_pairs) (simp add: known_pairs_def)
  next
    case (Some sp)
    have "filter (\<lambda>om. \<not> list_ex (\<lambda>m. lot m = lot om) (materials (known_pairs stock sp)))
            (materials (known_pairs stock old)) =
          filter (\<lambda>m. lot m \<in> lot_number ` set stock)
            (filter (\<lambda>om. \<not> list_ex (\<lambda>m. lot m = lot om) (materials sp)) (materials old))"
      by (auto simp: known_pairs_def list_ex_filter_implied intro!: filter_cong)
    with Some show ?thesis
      by (simp add: dropped_mats_def ser find_map_known_pairs)
  qed
qed

lemma recredit_deltas_known:
  "recredit_deltas (map (known_pairs stock) old_serials) (map (known_pairs stock) new_serials) =
     filter (\<lambda>ld. fst ld \<in> lot_number ` set stock) (recredit_deltas old_serials new_serials)"
  unfolding recredit_deltas_def
  by (simp add: filter_concat_map comp_def dropped_mats_known filter_map)

text \<open>
  Claim C10: a pair whose lot number matches no item of the stock is skipped by the
  consumption step and by the recredit step: the lookup finds no item, the guard skips the
  pair, and the stock is returned as it was, with no exception on the way. Reconciliation as
  a whole gives the same stock as it does on the bindings with all such pairs removed, and
  it creates no ledger entry: the lot numbers of the stock list are unchanged.
\<close>

theorem unknown_lot_skipped:
  "(lot mat \<notin> lot_number ` set stock \<longrightarrow>
      consume_mat old_entry stock mat = stock \<and> credit_mat stock mat = stock) \<and>
   reconcile old_serials new_serials stock =
     reconcile (map (known_pairs stock) old_serials) (map (known_pairs stock) new_serials) stock \<and>
   map lot_number (reconcile old_serials new_serials stock) = map lot_number stock"
proof (intro conjI impI)
  assume "lot mat \<notin> lot_number ` set stock"
  then show "consume_mat old_entry stock mat = stock" and "credit_mat stock mat = stock"
    by (simp_all add: consume_mat_adjust credit_mat_adjust adjust_unknown)
next
  show "reconcile old_serials new_serials stock =
     reconcile (map (known_pairs stock) old_serials) (map (known_pairs stock) new_serials) stock"
    by (simp only: reconcile_adjust consume_deltas_known recredit_deltas_known
          filter_append [symmetric] foldl_adjust_known [OF refl])
next
  show "map lot_number (reconcile old_serials new_serials stock) = map lot_number stock"
    by (simp only: reconcile_adjust lot_number_foldl_adjust)
qed

theorem unknown_lot_skipped_witness:
  "reconcile [binding ''F-001'' [pair ''L9'' 4, pair ''L1'' 1]]
     [binding ''F-001'' [pair ''L1'' 3, pair ''L8'' 2]]
     [stock_lot ''L1'' 10] = [stock_lot ''L1'' 8] \<and>
   consume_mat None [stock_lot ''L1'' 10] (pair ''L8'' 2) = [stock_lot ''L1'' 10] \<and>
   credit_mat [stock_lot ''L1'' 10] (pair ''L9'' 4) = [stock_lot ''L1'' 10]"
proof -
  let ?stock = "[stock_lot ''L1'' 10]"
  have 8: "lot (pair ''L8'' 2) \<notin> lot_number ` set ?stock"
    and 9: "lot (pair ''L9'' 4) \<notin> lot_number ` set ?stock"
    by (simp_all add: example_defs)
  have known: "reconcile [binding ''F-001'' [pair ''L1'' 1]] [binding ''F-001'' [pair ''L1'' 3]] ?stock =
      [stock_lot ''L1'' 8]"
    by (simp add: reconcile_defs example_defs)
  have strip: "map (known_pairs ?stock) [binding ''F-001'' [pair ''L9'' 4, pair ''L1'' 1]] =
        [binding ''F-001'' [pair ''L1'' 1]]"
      "map (known_pairs ?stock) [binding ''F-001'' [pair ''L1'' 3, pair ''L8'' 2]] =
        [binding ''F-001'' [pair ''L1'' 3]]"
    by (simp_all add: known_pairs_def example_defs)
  show ?thesis
    using unknown_lot_skipped [of "pair ''L8'' 2" ?stock None
        "[binding ''F-001'' [pair ''L9'' 4, pair ''L1'' 1]]"
        "[binding ''F-001'' [pair ''L1'' 3, pair ''L8'' 2]]"]
      unknown_lot_skipped [of "pair ''L9'' 4" ?stock None "[]" "[]"]
      8 9
    by (simp only: strip known simp_thms)
qed


section \<open>Serial enumeration: the loop\<close>













section \<open>Pricing and serial numbers: properties\<close>














lemma serial_line_total_product:
  "serial_line_total items s =
     (case find (\<lambda>it. description it = product s) items of Some it \<Rightarrow> unit_price it | None \<Rightarrow> 0)"
  by (simp add: serial_line_total_def)









section \<open>Loaders: properties\<close>

text \<open>
  Claim C7: when the backing file does not exist, the loaders of the catalog, the clients,
  the quotes and invoices, and the stock each return the empty list, and no error.
\<close>

theorem missing_file_empty:
  assumes "fs path = None"
  shows "load_catalog L fs path = Inr [] \<and> load_clients fs path = Inr [] \<and>
         load_quotes L fs path = Inr [] \<and> load_stock L fs path = Inr []"
  using assms
  by (simp add: load_catalog_def load_clients_def load_quotes_def load_stock_def open_file_def
        then_do_def except_FileNotFoundError_def)

theorem missing_file_empty_witness:
  "load_catalog toy_lib Map.empty ''catalog.csv'' = Inr [] \<and>
   load_clients Map.empty ''clients.csv'' = Inr [] \<and>
   load_quotes toy_lib Map.empty ''quotes.csv'' = Inr [] \<and>
   load_stock toy_lib Map.empty ''stock.csv'' = Inr []"
proof -
  have none: "(Map.empty :: files) p = None" for p
    by simp
  show ?thesis
    using missing_file_empty [OF none, of toy_lib "''catalog.csv''"]
      missing_file_empty [OF none, of toy_lib "''clients.csv''"]
      missing_file_empty [OF none, of toy_lib "''quotes.csv''"]
      missing_file_empty [OF none, of toy_lib "''stock.csv''"]
    by (simp only: simp_thms)
qed

lemma optional_json_default:
  assumes "json_loads L ''[]'' = Some (JArray [])" and "missing_or_malformed L r k"
  shows "optional_json L r k = JArray []"
  using assms
  by (auto simp: optional_json_def missing_or_malformed_def get_or_def py_json_loads_def
        split: option.splits)

lemma optional_json_repaired:
  assumes "json_loads L ''[]'' = Some (JArray [])"
  shows "optional_json L (r(k \<mapsto> ''[]'')) k = JArray []"
  using assms by (simp add: optional_json_def get_or_def py_json_loads_def)

lemma optional_json_other: "k' \<noteq> k \<Longrightarrow> optional_json L (r(k \<mapsto> v)) k' = optional_json L r k'"
  by (simp add: optional_json_def get_or_def)

lemma getitem_other: "k' \<noteq> k \<Longrightarrow> getitem (r(k \<mapsto> v)) k' = getitem r k'"
  by (simp add: getitem_def)

lemma get_or_other: "k' \<noteq> k \<Longrightarrow> get_or (r(k \<mapsto> v)) k' d = get_or r k' d"
  by (simp add: get_or_def)

lemma quote_client_of_other:
  "k = ''materials'' \<or> k = ''serials'' \<Longrightarrow> quote_client_of (r(k \<mapsto> v)) = quote_client_of r"
  by (auto simp: quote_client_of_def getitem_other)

lemma quote_row_fields:
  "quote_row L r = Inr q \<Longrightarrow>
     quote_materials q = optional_json L r ''materials'' \<and>
     quote_serials q = optional_json L r ''serials''"
  by (auto simp: quote_row_def then_do_def Let_def split: sum.splits)

text \<open>
  Claim C8: a row whose materials (or serials) column is missing or holds text that
  \<^verbatim>\<open>json.loads\<close> rejects loads exactly as the same row with the text \<^verbatim>\<open>[]\<close> in that
  column: the column raises no error, and whenever the row loads the field is the empty list.
  (\<^verbatim>\<open>json.loads("[]")\<close> is the empty list: the hypothesis on the library.)
\<close>

theorem malformed_json_defaults:
  assumes "json_loads L ''[]'' = Some (JArray [])"
    and "k = ''materials'' \<or> k = ''serials''"
    and "missing_or_malformed L r k"
  shows "quote_row L r = quote_row L (r(k \<mapsto> ''[]'')) \<and>
         (\<forall>q. quote_row L r = Inr q \<longrightarrow>
            (if k = ''materials'' then quote_materials q else quote_serials q) = JArray [])"
proof
  have same: "optional_json L (r(k \<mapsto> ''[]'')) k = optional_json L r k"
    by (simp add: optional_json_default [OF assms(1,3)] optional_json_repaired [OF assms(1)])
  from assms(2) show "quote_row L r = quote_row L (r(k \<mapsto> ''[]''))"
  proof
    assume k: "k = ''materials''"
    show ?thesis
      using same unfolding k
      by (simp add: quote_row_def getitem_other get_or_other optional_json_other
            quote_client_of_other)
  next
    assume k: "k = ''serials''"
    show ?thesis
      using same unfolding k
      by (simp add: quote_row_def getitem_other get_or_other optional_json_other
            quote_client_of_other)
  qed
next
  show "\<forall>q. quote_row L r = Inr q \<longrightarrow>
            (if k = ''materials'' then quote_materials q else quote_serials q) = JArray []"
  proof (intro allI impI)
    fix q
    assume "quote_row L r = Inr q"
    then have "quote_materials q = optional_json L r ''materials''"
      and "quote_serials q = optional_json L r ''serials''"
      by (simp_all add: quote_row_fields)
    with assms(2) optional_json_default [OF assms(1,3)]
    show "(if k = ''materials'' then quote_materials q else quote_serials q) = JArray []"
      by auto
  qed
qed

lemma legacy_row_loads:
  "quote_row toy_lib legacy_row =
     Inr \<lparr>quote_number = ''20240115-001'', quote_date = (2024, 1, 15),
          quote_client = \<lparr>client_name = ''Durand'', client_address = ''1 rue A'',
            client_phone = ''0102'', client_email = ''d@x.fr'', client_city = ''Lyon''\<rparr>,
          quote_items = [], quote_discount_value = 10, quote_discount_is_percent = True,
          quote_place = ''Lyon'', quote_status = ''quote'',
          quote_materials = JArray [], quote_serials = JArray []\<rparr>"
  by (simp add: quote_row_def legacy_row_def toy_lib_def then_do_def getitem_def get_or_def
        py_json_loads_def py_float_def py_strptime_def items_of_json_def optional_json_def
        quote_client_of_def Let_def)

theorem malformed_json_defaults_witness:
  "missing_or_malformed toy_lib legacy_row ''materials'' \<and>
   missing_or_malformed toy_lib legacy_row ''serials'' \<and>
   \<not> isl (quote_row toy_lib legacy_row) \<and>
   quote_row toy_lib legacy_row = quote_row toy_lib (legacy_row(''materials'' \<mapsto> ''[]'')) \<and>
   quote_materials (projr (quote_row toy_lib legacy_row)) = JArray [] \<and>
   quote_serials (projr (quote_row toy_lib legacy_row)) = JArray []"
proof -
  have lib: "json_loads toy_lib ''[]'' = Some (JArray [])"
    by (simp add: toy_lib_def)
  have m: "missing_or_malformed toy_lib legacy_row ''materials''"
    and s: "missing_or_malformed toy_lib legacy_row ''serials''"
    by (simp_all add: missing_or_malformed_def legacy_row_def toy_lib_def)
  have km: "''materials'' = ''materials'' \<or> ''materials'' = ''serials''"
    and ks: "''serials'' = ''materials'' \<or> ''serials'' = ''serials''"
    by simp_all
  obtain q where q: "quote_row toy_lib legacy_row = Inr q"
    using legacy_row_loads by blast
  from malformed_json_defaults [OF lib km m] q
  have same: "quote_row toy_lib legacy_row = quote_row toy_lib (legacy_row(''materials'' \<mapsto> ''[]''))"
    and qm: "quote_materials q = JArray []"
    by simp_all
  from malformed_json_defaults [OF lib ks s] q have qs: "quote_serials q = JArray []"
    by simp
  have loaded: "\<not> isl (quote_row toy_lib legacy_row)"
    by (simp add: q)
  have mats: "quote_materials (projr (quote_row toy_lib legacy_row)) = JArray []"
    by (simp add: q qm)
  have sers: "quote_serials (projr (quote_row toy_lib legacy_row)) = JArray []"
    by (simp add: q qs)
  from m s loaded same mats sers show ?thesis
    by (intro conjI)
qed

end
